theory Spec2Isabelle
  imports Complex_Main "HOL-Library.Word" "HOL-Library.Signed_Division"
begin

section \<open>Machine words and undefined behaviour\<close>

text \<open>
  \<open>int64_t\<close> is a 64-bit word read in two's complement by \<open>sint\<close>;
  \<open>std::make_unsigned_t<int64_t>\<close> is the same word read by \<open>unat\<close>/\<open>uint\<close>
  (on words \<open>+\<close>, \<open>-\<close>, \<open>*\<close> wrap, \<open><\<close> and \<open>div\<close> are the unsigned ones).
\<close>

type_synonym int64 = "64 word"

definition INT64_MIN :: int64 where
  "INT64_MIN = word_of_int (- 9223372036854775808)"

definition INT64_MAX :: int64 where
  "INT64_MAX = word_of_int 9223372036854775807"

definition fits64 :: "int \<Rightarrow> bool" where
  "fits64 k \<longleftrightarrow> - 9223372036854775808 \<le> k \<and> k \<le> 9223372036854775807"

text \<open>
  What the C++ code can do instead of returning a value: divide by zero, overflow a
  signed built-in operation (both undefined behaviour), fail an \<open>assert\<close>, or hand GMP an
  \<open>mpz_t\<close> that was never initialised.
\<close>

datatype error = DivisionByZero | SignedOverflow | AssertionFailed | UninitialisedMpz

definition bindE :: "error + 'a \<Rightarrow> ('a \<Rightarrow> error + 'b) \<Rightarrow> error + 'b" where
  "bindE r f = (case r of Inl e \<Rightarrow> Inl e | Inr v \<Rightarrow> f v)"

text \<open>The built-in signed operators of C++ on \<open>int64_t\<close>: \<open>+\<close>, unary \<open>-\<close>, \<open>/\<close>, \<open>%\<close>.\<close>

definition c_add :: "int64 \<Rightarrow> int64 \<Rightarrow> error + int64" where
  "c_add x y = (if fits64 (sint x + sint y) then Inr (x + y) else Inl SignedOverflow)"

definition c_sub :: "int64 \<Rightarrow> int64 \<Rightarrow> error + int64" where
  "c_sub x y = (if fits64 (sint x - sint y) then Inr (x - y) else Inl SignedOverflow)"

definition c_neg :: "int64 \<Rightarrow> error + int64" where
  "c_neg x = (if fits64 (- sint x) then Inr (- x) else Inl SignedOverflow)"

definition c_div :: "int64 \<Rightarrow> int64 \<Rightarrow> error + int64" where
  "c_div x y =
     (if y = 0 then Inl DivisionByZero
      else if fits64 (sint x sdiv sint y) then Inr (word_of_int (sint x sdiv sint y))
      else Inl SignedOverflow)"

definition c_rem :: "int64 \<Rightarrow> int64 \<Rightarrow> error + int64" where
  "c_rem x y =
     (if y = 0 then Inl DivisionByZero
      else if fits64 (sint x sdiv sint y) then Inr (word_of_int (sint x smod sint y))
      else Inl SignedOverflow)"

section \<open>Math.h: overflow-checked primitives\<close>

text \<open>
  Each primitive returns the overflow flag and the truncated \<open>Result\<close> that the C++
  writes through its reference parameter. These are the portable bodies; the
  \<open>__builtin_*_overflow\<close> branches are specified by \<open>builtin_overflow\<close> below.
\<close>

definition AddOverflow :: "int64 \<Rightarrow> int64 \<Rightarrow> bool \<times> int64" where
  "AddOverflow X Y =
     (let UResult = X + Y; Result = UResult in
      if 0 < sint X \<and> 0 < sint Y then (sint Result \<le> 0, Result)
      else if sint X < 0 \<and> sint Y < 0 then (0 \<le> sint Result, Result)
      else (False, Result))"

definition SubOverflow :: "int64 \<Rightarrow> int64 \<Rightarrow> bool \<times> int64" where
  "SubOverflow X Y =
     (let UResult = X - Y; Result = UResult in
      if sint X \<le> 0 \<and> 0 < sint Y then (0 \<le> sint Result, Result)
      else if 0 \<le> sint X \<and> sint Y < 0 then (sint Result \<le> 0, Result)
      else (False, Result))"

definition MulOverflow :: "int64 \<Rightarrow> int64 \<Rightarrow> bool \<times> int64" where
  "MulOverflow X Y =
     (let UX = (if sint X < 0 then 0 - X else X);
          UY = (if sint Y < 0 then 0 - Y else Y);
          UResult = UX * UY;
          IsNegative = ((sint X < 0) \<noteq> (sint Y < 0));
          Result = (if IsNegative then 0 - UResult else UResult)
      in if UX = 0 \<or> UY = 0 then (False, Result)
         else if IsNegative then ((INT64_MAX + 1) div UY < UX, Result)
         else (INT64_MAX div UY < UX, Result))"

text \<open>
  The compiler built-ins \<open>__builtin_add_overflow\<close>, \<open>__builtin_sub_overflow\<close> and
  \<open>__builtin_mul_overflow\<close>, as GCC and Clang document them: the operation is done in
  infinite precision, the result is stored truncated, and the flag says whether the
  exact result did not fit.
\<close>

definition builtin_overflow :: "int \<Rightarrow> bool \<times> int64" where
  "builtin_overflow exact = (\<not> fits64 exact, word_of_int exact)"

section \<open>Math.h: division helpers on \<open>int64_t\<close>\<close>

definition math_ceilDiv :: "int64 \<Rightarrow> int64 \<Rightarrow> error + int64" where
  "math_ceilDiv lhs rhs =
     (if rhs = 0 then Inl AssertionFailed
      else let x = (if 0 < sint rhs then - 1 else 1) in
        if lhs \<noteq> 0 \<and> ((0 < sint lhs) = (0 < sint rhs))
        then bindE (c_add lhs x) (\<lambda>s. bindE (c_div s rhs) (\<lambda>q. c_add q 1))
        else bindE (c_neg lhs) (\<lambda>n. bindE (c_div n rhs) c_neg))"

definition math_floorDiv :: "int64 \<Rightarrow> int64 \<Rightarrow> error + int64" where
  "math_floorDiv lhs rhs =
     (if rhs = 0 then Inl AssertionFailed
      else let x = (if sint rhs < 0 then 1 else - 1) in
        if lhs \<noteq> 0 \<and> ((sint lhs < 0) \<noteq> (sint rhs < 0))
        then bindE (c_neg lhs) (\<lambda>n. bindE (c_add n x) (\<lambda>s. bindE (c_div s rhs)
               (\<lambda>q. bindE (c_neg q) (\<lambda>m. c_sub m 1))))
        else c_div lhs rhs)"

definition math_mod :: "int64 \<Rightarrow> int64 \<Rightarrow> error + int64" where
  "math_mod lhs rhs =
     (if \<not> 1 \<le> sint rhs then Inl AssertionFailed
      else bindE (c_rem lhs rhs) (\<lambda>r. if sint r < 0 then c_add r rhs else Inr r))"

section \<open>The GMP backend\<close>

text \<open>
  GMP is an external library. An \<open>mpz_t\<close> that has been initialised holds an unbounded
  integer, and each function below is GMP's documented result on those integers:
  \<open>mpz_tdiv_q\<close> truncates, \<open>mpz_cdiv_q\<close> rounds up, \<open>mpz_fdiv_q\<close> rounds down,
  \<open>mpz_mod\<close> ignores the sign of the divisor and is never negative, \<open>mpz_gcd\<close> is never
  negative and is 0 on two zeros, and every division by zero is a deliberate trap.
  \<open>mpz_set_si\<close> takes a \<open>long\<close>, which has 64 bits on the LP64 targets considered here.
\<close>

type_synonym mpz = int

definition mpz_set_si :: "int64 \<Rightarrow> mpz" where
  "mpz_set_si v = sint v"

definition mpz_cmp :: "mpz \<Rightarrow> mpz \<Rightarrow> int" where
  "mpz_cmp a b = (if a < b then - 1 else if a = b then 0 else 1)"

definition mpz_add :: "mpz \<Rightarrow> mpz \<Rightarrow> mpz" where
  "mpz_add a b = a + b"

definition mpz_sub :: "mpz \<Rightarrow> mpz \<Rightarrow> mpz" where
  "mpz_sub a b = a - b"

definition mpz_mul :: "mpz \<Rightarrow> mpz \<Rightarrow> mpz" where
  "mpz_mul a b = a * b"

definition mpz_neg :: "mpz \<Rightarrow> mpz" where
  "mpz_neg a = - a"

definition mpz_tdiv_q :: "mpz \<Rightarrow> mpz \<Rightarrow> error + mpz" where
  "mpz_tdiv_q n d = (if d = 0 then Inl DivisionByZero else Inr (n sdiv d))"

definition mpz_cdiv_q :: "mpz \<Rightarrow> mpz \<Rightarrow> error + mpz" where
  "mpz_cdiv_q n d = (if d = 0 then Inl DivisionByZero else Inr (- ((- n) div d)))"

definition mpz_fdiv_q :: "mpz \<Rightarrow> mpz \<Rightarrow> error + mpz" where
  "mpz_fdiv_q n d = (if d = 0 then Inl DivisionByZero else Inr (n div d))"

definition mpz_mod :: "mpz \<Rightarrow> mpz \<Rightarrow> error + mpz" where
  "mpz_mod n d = (if d = 0 then Inl DivisionByZero else Inr (n mod \<bar>d\<bar>))"

definition mpz_gcd :: "mpz \<Rightarrow> mpz \<Rightarrow> mpz" where
  "mpz_gcd a b = gcd a b"

section \<open>SlowMPInt.cpp: the arbitrary-precision adapter\<close>

text \<open>
  A \<open>SlowMPInt\<close> that was built by \<open>SlowMPInt(int64_t)\<close> or the default constructor is the
  integer its \<open>mpz_t\<close> holds. Every operator computes into a local \<open>SlowMPInt res\<close>, which
  the default constructor has initialised, and returns it; the returned object is taken to
  be \<open>res\<close> itself (the copy elision every compiler performs for such a return). The copy
  constructor is modelled with the storage, in the next section.
\<close>

type_synonym SlowMPInt = mpz

definition SlowMPInt_of :: "int64 \<Rightarrow> SlowMPInt" where
  "SlowMPInt_of val = mpz_set_si val"

definition Slow_eq :: "SlowMPInt \<Rightarrow> SlowMPInt \<Rightarrow> bool" where
  "Slow_eq a b \<longleftrightarrow> mpz_cmp a b = 0"

definition Slow_gt :: "SlowMPInt \<Rightarrow> SlowMPInt \<Rightarrow> bool" where
  "Slow_gt a b \<longleftrightarrow> 0 < mpz_cmp a b"

definition Slow_lt :: "SlowMPInt \<Rightarrow> SlowMPInt \<Rightarrow> bool" where
  "Slow_lt a b \<longleftrightarrow> mpz_cmp a b < 0"

definition Slow_ge :: "SlowMPInt \<Rightarrow> SlowMPInt \<Rightarrow> bool" where
  "Slow_ge a b \<longleftrightarrow> 0 \<le> mpz_cmp a b"

definition Slow_add :: "SlowMPInt \<Rightarrow> SlowMPInt \<Rightarrow> SlowMPInt" where
  "Slow_add a b = mpz_add a b"

definition Slow_sub :: "SlowMPInt \<Rightarrow> SlowMPInt \<Rightarrow> SlowMPInt" where
  "Slow_sub a b = mpz_sub a b"

definition Slow_mul :: "SlowMPInt \<Rightarrow> SlowMPInt \<Rightarrow> SlowMPInt" where
  "Slow_mul a b = mpz_mul a b"

definition Slow_div :: "SlowMPInt \<Rightarrow> SlowMPInt \<Rightarrow> error + SlowMPInt" where
  "Slow_div a b = mpz_tdiv_q a b"

definition Slow_rem :: "SlowMPInt \<Rightarrow> SlowMPInt \<Rightarrow> error + SlowMPInt" where
  "Slow_rem a b = mpz_mod a b"

definition Slow_neg :: "SlowMPInt \<Rightarrow> SlowMPInt" where
  "Slow_neg a = mpz_neg a"

definition Slow_ceilDiv :: "SlowMPInt \<Rightarrow> SlowMPInt \<Rightarrow> error + SlowMPInt" where
  "Slow_ceilDiv lhs rhs =
     (if Slow_eq rhs (SlowMPInt_of (- 1)) then Inr (Slow_neg lhs) else mpz_cdiv_q lhs rhs)"

definition Slow_floorDiv :: "SlowMPInt \<Rightarrow> SlowMPInt \<Rightarrow> error + SlowMPInt" where
  "Slow_floorDiv lhs rhs =
     (if Slow_eq rhs (SlowMPInt_of (- 1)) then Inr (Slow_neg lhs) else mpz_fdiv_q lhs rhs)"

definition Slow_mod :: "SlowMPInt \<Rightarrow> SlowMPInt \<Rightarrow> error + SlowMPInt" where
  "Slow_mod lhs rhs =
     (if \<not> Slow_ge rhs (SlowMPInt_of 1) then Inl AssertionFailed
      else bindE (Slow_rem lhs rhs)
             (\<lambda>r. if Slow_lt r (SlowMPInt_of 0) then Inr (Slow_add r rhs) else Inr r))"

definition Slow_gcd :: "SlowMPInt \<Rightarrow> SlowMPInt \<Rightarrow> error + SlowMPInt" where
  "Slow_gcd a b =
     (if \<not> (Slow_ge a (SlowMPInt_of 0) \<and> Slow_ge b (SlowMPInt_of 0)) then Inl AssertionFailed
      else Inr (mpz_gcd a b))"

section \<open>Storage of the large representation\<close>

text \<open>
  The adapter above identifies a \<open>SlowMPInt\<close> with the integer its \<open>mpz_t\<close> holds. Copying
  is about the storage behind that integer, so here an \<open>mpz_t\<close> is an object that is either
  uninitialised (fresh object memory, fields indeterminate) or initialised and owning a
  limb block in the heap. GMP requires every \<open>mpz_t\<close> to be initialised with \<open>mpz_init\<close>
  before it is assigned or read; \<open>mpz_set\<close> then copies the value of \<open>op\<close> into the limb
  block that \<open>rop\<close> owns.
\<close>

type_synonym addr = nat

datatype mpz_t = Uninitialised | Initialised addr

record gmp_heap =
  limbs :: "addr \<rightharpoonup> int"
  fresh :: addr

definition mpz_init :: "gmp_heap \<Rightarrow> mpz_t \<times> gmp_heap" where
  "mpz_init h =
     (Initialised (fresh h), h\<lparr>limbs := (limbs h)(fresh h \<mapsto> 0), fresh := Suc (fresh h)\<rparr>)"

definition mpz_value :: "gmp_heap \<Rightarrow> mpz_t \<Rightarrow> error + int" where
  "mpz_value h x =
     (case x of
        Uninitialised \<Rightarrow> Inl UninitialisedMpz
      | Initialised a \<Rightarrow> (case limbs h a of None \<Rightarrow> Inl UninitialisedMpz | Some v \<Rightarrow> Inr v))"

definition mpz_store :: "mpz_t \<Rightarrow> int \<Rightarrow> gmp_heap \<Rightarrow> error + gmp_heap" where
  "mpz_store rop v h =
     (case rop of
        Uninitialised \<Rightarrow> Inl UninitialisedMpz
      | Initialised a \<Rightarrow> Inr (h\<lparr>limbs := (limbs h)(a \<mapsto> v)\<rparr>))"

definition mpz_set :: "mpz_t \<Rightarrow> mpz_t \<Rightarrow> gmp_heap \<Rightarrow> error + gmp_heap" where
  "mpz_set rop op h = bindE (mpz_value h op) (\<lambda>v. mpz_store rop v h)"

text \<open>The three constructors of \<open>SlowMPInt\<close>; each returns the member \<open>val\<close> of the new object.\<close>

definition SlowMPInt_from_int64 :: "int64 \<Rightarrow> gmp_heap \<Rightarrow> error + mpz_t \<times> gmp_heap" where
  "SlowMPInt_from_int64 v h =
     (let (this_val, h1) = mpz_init h in
      bindE (mpz_store this_val (mpz_set_si v) h1) (\<lambda>h2. Inr (this_val, h2)))"

definition SlowMPInt_from_mpz :: "mpz_t \<Rightarrow> gmp_heap \<Rightarrow> error + mpz_t \<times> gmp_heap" where
  "SlowMPInt_from_mpz v h =
     (let (this_val, h1) = mpz_init h in
      bindE (mpz_set this_val v h1) (\<lambda>h2. Inr (this_val, h2)))"

definition SlowMPInt_copy :: "mpz_t \<Rightarrow> gmp_heap \<Rightarrow> error + mpz_t \<times> gmp_heap" where
  "SlowMPInt_copy v h =
     (let this_val = Uninitialised in
      bindE (mpz_set this_val v h) (\<lambda>h1. Inr (this_val, h1)))"

text \<open>
  The copy constructor on the integers: the source object is laid out in a heap of its
  own, the constructor runs there, and the value of the new object is read back.
\<close>

definition SlowMPInt_copy_value :: "SlowMPInt \<Rightarrow> error + SlowMPInt" where
  "SlowMPInt_copy_value val =
     (let h = \<lparr>limbs = [0 \<mapsto> val], fresh = 1\<rparr> in
      bindE (SlowMPInt_copy (Initialised 0) h) (\<lambda>(c, h1). mpz_value h1 c))"

text \<open>
  An \<open>MPInt\<close> object with its storage, and its copy constructor: \<open>valSmall\<close> is copied, and
  for a large \<open>o\<close> the call \<open>initLarge(o.valLarge)\<close> finds \<open>*this\<close> small and
  placement-constructs \<open>valLarge\<close> with the copy constructor of \<open>SlowMPInt\<close>.
\<close>

datatype MPInt_obj = SmallObj int64 | LargeObj mpz_t

definition MPInt_copy :: "MPInt_obj \<Rightarrow> gmp_heap \<Rightarrow> error + MPInt_obj \<times> gmp_heap" where
  "MPInt_copy o' h =
     (case o' of
        SmallObj v \<Rightarrow> Inr (SmallObj v, h)
      | LargeObj v \<Rightarrow> bindE (SlowMPInt_copy v h) (\<lambda>(c, h1). Inr (LargeObj c, h1)))"

section \<open>MPInt.h: the tagged dispatcher\<close>

text \<open>
  The union of \<open>valSmall\<close> and \<open>valLarge\<close> with its discriminant \<open>holdsLarge\<close> is a
  datatype with one constructor for each representation. A large \<open>MPInt\<close> carries the
  integer its \<open>valLarge\<close> holds.
\<close>

datatype MPInt = Small int64 | Large SlowMPInt

fun isSmall :: "MPInt \<Rightarrow> bool" where
  "isSmall (Small v) = True"
| "isSmall (Large v) = False"

fun isLarge :: "MPInt \<Rightarrow> bool" where
  "isLarge (Small v) = False"
| "isLarge (Large v) = True"

text \<open>
  The private constructor \<open>MPInt(const SlowMPInt &val) : valLarge(val), holdsLarge(true)\<close>
  copy-constructs \<open>valLarge\<close>.
\<close>

definition MPInt_from_Slow :: "SlowMPInt \<Rightarrow> error + MPInt" where
  "MPInt_from_Slow val = bindE (SlowMPInt_copy_value val) (\<lambda>v. Inr (Large v))"

text \<open>
  \<open>explicit operator SlowMPInt()\<close>: a small value is converted with \<open>SlowMPInt(int64_t)\<close>; a
  large one is \<open>return getLarge();\<close>, which copy-constructs the returned object.
\<close>

fun toSlow :: "MPInt \<Rightarrow> error + SlowMPInt" where
  "toSlow (Small v) = Inr (SlowMPInt_of v)"
| "toSlow (Large v) = SlowMPInt_copy_value v"

definition initSmall :: "MPInt \<Rightarrow> int64 \<Rightarrow> MPInt" where
  "initSmall this v = Small v"

text \<open>
  \<open>initLarge\<close>: on a small \<open>*this\<close> the placement \<open>new (&valLarge) SlowMPInt(o)\<close> runs the
  copy constructor; on a large \<open>*this\<close> it is \<open>valLarge = o\<close>, the implicit member-wise
  assignment of the \<open>mpz_t\<close>.
\<close>

fun initLarge :: "MPInt \<Rightarrow> SlowMPInt \<Rightarrow> error + MPInt" where
  "initLarge (Small w) o' = bindE (SlowMPInt_copy_value o') (\<lambda>v. Inr (Large v))"
| "initLarge (Large w) o' = Inr (Large o')"

text \<open>
  The copy constructor \<open>MPInt(const MPInt &o)\<close>, where \<open>initLarge(o.valLarge)\<close> runs on a
  \<open>*this\<close> that is still small, and \<open>operator=(const MPInt &o)\<close>.
\<close>

definition MPInt_copy_value :: "MPInt \<Rightarrow> error + MPInt" where
  "MPInt_copy_value o' =
     (case o' of
        Small v \<Rightarrow> Inr (Small v)
      | Large v \<Rightarrow> bindE (SlowMPInt_copy_value v) (\<lambda>c. Inr (Large c)))"

fun MPInt_assign :: "MPInt \<Rightarrow> MPInt \<Rightarrow> error + MPInt" where
  "MPInt_assign this (Small v) = Inr (initSmall this v)"
| "MPInt_assign this (Large v) = initLarge this v"

text \<open>\<open>operator=(int)\<close>: the \<open>int\<close> argument is sign-extended to \<open>int64_t\<close>.\<close>

definition MPInt_assign_int :: "MPInt \<Rightarrow> 32 word \<Rightarrow> MPInt" where
  "MPInt_assign_int this x = initSmall this (scast x)"

text \<open>
  \<open>detail::addOverflow\<close>, \<open>subOverflow\<close> and \<open>mulOverflow\<close> call the compiler built-in where
  there is one and the \<open>Math.h\<close> function otherwise. They are defined by the \<open>Math.h\<close>
  bodies; the lemmas \<open>AddOverflow_builtin\<close>, \<open>SubOverflow_builtin\<close> and
  \<open>MulOverflow_builtin\<close> show that the built-ins return the same pairs.
\<close>

definition addOverflow :: "int64 \<Rightarrow> int64 \<Rightarrow> bool \<times> int64" where
  "addOverflow x y = AddOverflow x y"

definition subOverflow :: "int64 \<Rightarrow> int64 \<Rightarrow> bool \<times> int64" where
  "subOverflow x y = SubOverflow x y"

definition mulOverflow :: "int64 \<Rightarrow> int64 \<Rightarrow> bool \<times> int64" where
  "mulOverflow x y = MulOverflow x y"

definition divWouldOverflow :: "int64 \<Rightarrow> int64 \<Rightarrow> bool" where
  "divWouldOverflow x y \<longleftrightarrow> x = INT64_MIN \<and> y = - 1"

subsection \<open>Comparisons with a native word\<close>

text \<open>These read \<open>getLarge()\<close> through a reference; nothing is copied.\<close>

fun MPInt_gt_i64 :: "MPInt \<Rightarrow> int64 \<Rightarrow> bool" where
  "MPInt_gt_i64 (Small a) b = (sint b < sint a)"
| "MPInt_gt_i64 (Large a) b = Slow_gt a (SlowMPInt_of b)"

fun MPInt_ge_i64 :: "MPInt \<Rightarrow> int64 \<Rightarrow> bool" where
  "MPInt_ge_i64 (Small a) b = (sint b \<le> sint a)"
| "MPInt_ge_i64 (Large a) b = Slow_ge a (SlowMPInt_of b)"

subsection \<open>Arithmetic operators\<close>

text \<open>
  Every fallback is \<open>MPInt(SlowMPInt(*this) op SlowMPInt(o))\<close>: both operands are
  converted, the adapter computes, and the private constructor wraps the result.
\<close>

fun MPInt_add :: "MPInt \<Rightarrow> MPInt \<Rightarrow> error + MPInt" where
  "MPInt_add (Small a) (Small b) =
     (let (overflow, result) = addOverflow a b in
      if \<not> overflow then Inr (Small result)
      else bindE (toSlow (Small a)) (\<lambda>x. bindE (toSlow (Small b)) (\<lambda>y.
             MPInt_from_Slow (Slow_add x y))))"
| "MPInt_add this o' =
     bindE (toSlow this) (\<lambda>x. bindE (toSlow o') (\<lambda>y. MPInt_from_Slow (Slow_add x y)))"

fun MPInt_sub :: "MPInt \<Rightarrow> MPInt \<Rightarrow> error + MPInt" where
  "MPInt_sub (Small a) (Small b) =
     (let (overflow, result) = subOverflow a b in
      if \<not> overflow then Inr (Small result)
      else bindE (toSlow (Small a)) (\<lambda>x. bindE (toSlow (Small b)) (\<lambda>y.
             MPInt_from_Slow (Slow_sub x y))))"
| "MPInt_sub this o' =
     bindE (toSlow this) (\<lambda>x. bindE (toSlow o') (\<lambda>y. MPInt_from_Slow (Slow_sub x y)))"

fun MPInt_mul :: "MPInt \<Rightarrow> MPInt \<Rightarrow> error + MPInt" where
  "MPInt_mul (Small a) (Small b) =
     (let (overflow, result) = mulOverflow a b in
      if \<not> overflow then Inr (Small result)
      else bindE (toSlow (Small a)) (\<lambda>x. bindE (toSlow (Small b)) (\<lambda>y.
             MPInt_from_Slow (Slow_mul x y))))"
| "MPInt_mul this o' =
     bindE (toSlow this) (\<lambda>x. bindE (toSlow o') (\<lambda>y. MPInt_from_Slow (Slow_mul x y)))"

fun MPInt_neg :: "MPInt \<Rightarrow> error + MPInt" where
  "MPInt_neg (Small a) =
     (if a \<noteq> INT64_MIN then Inr (Small (- a))
      else bindE (toSlow (Small a)) (\<lambda>x. MPInt_from_Slow (Slow_neg x)))"
| "MPInt_neg (Large a) = bindE (toSlow (Large a)) (\<lambda>x. MPInt_from_Slow (Slow_neg x))"

fun divByPositive :: "MPInt \<Rightarrow> MPInt \<Rightarrow> error + MPInt" where
  "divByPositive this o' =
     (if \<not> MPInt_gt_i64 o' 0 then Inl AssertionFailed
      else case (this, o') of
        (Small a, Small b) \<Rightarrow> bindE (c_div a b) (\<lambda>q. Inr (Small q))
      | _ \<Rightarrow> bindE (toSlow this) (\<lambda>x. bindE (toSlow o') (\<lambda>y.
               bindE (Slow_div x y) MPInt_from_Slow)))"

fun MPInt_div :: "MPInt \<Rightarrow> MPInt \<Rightarrow> error + MPInt" where
  "MPInt_div (Small a) (Small b) =
     (if divWouldOverflow a b then MPInt_neg (Small a)
      else bindE (c_div a b) (\<lambda>q. Inr (Small q)))"
| "MPInt_div this o' =
     bindE (toSlow this) (\<lambda>x. bindE (toSlow o') (\<lambda>y. bindE (Slow_div x y) MPInt_from_Slow))"

fun MPInt_rem :: "MPInt \<Rightarrow> MPInt \<Rightarrow> error + MPInt" where
  "MPInt_rem (Small a) (Small b) = bindE (c_rem a b) (\<lambda>r. Inr (Small r))"
| "MPInt_rem this o' =
     bindE (toSlow this) (\<lambda>x. bindE (toSlow o') (\<lambda>y. bindE (Slow_rem x y) MPInt_from_Slow))"

subsection \<open>Math-convention helpers\<close>

text \<open>\<open>abs\<close> is \<open>MPInt(x >= 0 ? x : -x)\<close>: a copy of \<open>x\<close> or its negation.\<close>

definition MPInt_abs :: "MPInt \<Rightarrow> error + MPInt" where
  "MPInt_abs x = (if MPInt_ge_i64 x 0 then MPInt_copy_value x else MPInt_neg x)"

fun MPInt_ceilDiv :: "MPInt \<Rightarrow> MPInt \<Rightarrow> error + MPInt" where
  "MPInt_ceilDiv (Small a) (Small b) =
     (if divWouldOverflow a b then MPInt_neg (Small a)
      else bindE (math_ceilDiv a b) (\<lambda>q. Inr (Small q)))"
| "MPInt_ceilDiv lhs rhs =
     bindE (toSlow lhs) (\<lambda>x. bindE (toSlow rhs) (\<lambda>y.
       bindE (Slow_ceilDiv x y) MPInt_from_Slow))"

fun MPInt_floorDiv :: "MPInt \<Rightarrow> MPInt \<Rightarrow> error + MPInt" where
  "MPInt_floorDiv (Small a) (Small b) =
     (if divWouldOverflow a b then MPInt_neg (Small a)
      else bindE (math_floorDiv a b) (\<lambda>q. Inr (Small q)))"
| "MPInt_floorDiv lhs rhs =
     bindE (toSlow lhs) (\<lambda>x. bindE (toSlow rhs) (\<lambda>y.
       bindE (Slow_floorDiv x y) MPInt_from_Slow))"

fun MPInt_mod :: "MPInt \<Rightarrow> MPInt \<Rightarrow> error + MPInt" where
  "MPInt_mod (Small a) (Small b) = bindE (math_mod a b) (\<lambda>r. Inr (Small r))"
| "MPInt_mod lhs rhs =
     bindE (toSlow lhs) (\<lambda>x. bindE (toSlow rhs) (\<lambda>y. bindE (Slow_mod x y) MPInt_from_Slow))"

text \<open>
  \<open>std::gcd\<close> on \<open>int64_t\<close>: the greatest common divisor of the absolute values,
  returned as an \<open>int64_t\<close>.
\<close>

definition std_gcd :: "int64 \<Rightarrow> int64 \<Rightarrow> int64" where
  "std_gcd m n = word_of_int (gcd (sint m) (sint n))"

fun MPInt_gcd :: "MPInt \<Rightarrow> MPInt \<Rightarrow> error + MPInt" where
  "MPInt_gcd a b =
     (if \<not> (MPInt_ge_i64 a 0 \<and> MPInt_ge_i64 b 0) then Inl AssertionFailed
      else case (a, b) of
        (Small x, Small y) \<Rightarrow> Inr (Small (std_gcd x y))
      | _ \<Rightarrow> bindE (toSlow a) (\<lambda>x. bindE (toSlow b) (\<lambda>y.
               bindE (Slow_gcd x y) MPInt_from_Slow)))"

definition MPInt_lcm :: "MPInt \<Rightarrow> MPInt \<Rightarrow> error + MPInt" where
  "MPInt_lcm a b =
     bindE (MPInt_abs a) (\<lambda>x. bindE (MPInt_abs b) (\<lambda>y.
       bindE (MPInt_mul x y) (\<lambda>p. bindE (MPInt_gcd x y) (\<lambda>g. MPInt_div p g))))"

subsection \<open>In-place operators\<close>

text \<open>
  Each in-place operator returns the new value of \<open>*this\<close>; the fallbacks are
  \<open>*this = MPInt(...)\<close>.
\<close>

fun MPInt_add_assign :: "MPInt \<Rightarrow> MPInt \<Rightarrow> error + MPInt" where
  "MPInt_add_assign (Small a) (Small b) =
     (let (overflow, result) = addOverflow a b in
      if \<not> overflow then Inr (Small result)
      else bindE (toSlow (Small a)) (\<lambda>x. bindE (toSlow (Small b)) (\<lambda>y.
             bindE (MPInt_from_Slow (Slow_add x y)) (MPInt_assign (Small a)))))"
| "MPInt_add_assign this o' =
     bindE (toSlow this) (\<lambda>x. bindE (toSlow o') (\<lambda>y.
       bindE (MPInt_from_Slow (Slow_add x y)) (MPInt_assign this)))"

fun MPInt_sub_assign :: "MPInt \<Rightarrow> MPInt \<Rightarrow> error + MPInt" where
  "MPInt_sub_assign (Small a) (Small b) =
     (let (overflow, result) = subOverflow a b in
      if \<not> overflow then Inr (Small result)
      else bindE (toSlow (Small a)) (\<lambda>x. bindE (toSlow (Small b)) (\<lambda>y.
             bindE (MPInt_from_Slow (Slow_sub x y)) (MPInt_assign (Small a)))))"
| "MPInt_sub_assign this o' =
     bindE (toSlow this) (\<lambda>x. bindE (toSlow o') (\<lambda>y.
       bindE (MPInt_from_Slow (Slow_sub x y)) (MPInt_assign this)))"

fun MPInt_mul_assign :: "MPInt \<Rightarrow> MPInt \<Rightarrow> error + MPInt" where
  "MPInt_mul_assign (Small a) (Small b) =
     (let (overflow, result) = mulOverflow a b in
      if \<not> overflow then Inr (Small result)
      else bindE (toSlow (Small a)) (\<lambda>x. bindE (toSlow (Small b)) (\<lambda>y.
             bindE (MPInt_from_Slow (Slow_mul x y)) (MPInt_assign (Small a)))))"
| "MPInt_mul_assign this o' =
     bindE (toSlow this) (\<lambda>x. bindE (toSlow o') (\<lambda>y.
       bindE (MPInt_from_Slow (Slow_mul x y)) (MPInt_assign this)))"

fun MPInt_div_assign :: "MPInt \<Rightarrow> MPInt \<Rightarrow> error + MPInt" where
  "MPInt_div_assign (Small a) (Small b) =
     (if divWouldOverflow a b then bindE (MPInt_neg (Small a)) (MPInt_assign (Small a))
      else bindE (c_div a b) (\<lambda>q. Inr (Small q)))"
| "MPInt_div_assign this o' =
     bindE (toSlow this) (\<lambda>x. bindE (toSlow o') (\<lambda>y.
       bindE (Slow_div x y) (\<lambda>q. bindE (MPInt_from_Slow q) (MPInt_assign this))))"

fun divByPositiveInPlace :: "MPInt \<Rightarrow> MPInt \<Rightarrow> error + MPInt" where
  "divByPositiveInPlace this o' =
     (if \<not> MPInt_gt_i64 o' 0 then Inl AssertionFailed
      else case (this, o') of
        (Small a, Small b) \<Rightarrow> bindE (c_div a b) (\<lambda>q. Inr (Small q))
      | _ \<Rightarrow> bindE (toSlow this) (\<lambda>x. bindE (toSlow o') (\<lambda>y.
               bindE (Slow_div x y) (\<lambda>q. bindE (MPInt_from_Slow q) (MPInt_assign this)))))"

definition MPInt_rem_assign :: "MPInt \<Rightarrow> MPInt \<Rightarrow> error + MPInt" where
  "MPInt_rem_assign this o' = bindE (MPInt_rem this o') (MPInt_assign this)"

section \<open>Hashing\<close>

text \<open>
  \<open>hash_value(const MPInt &)\<close> calls \<open>hash_value(int64_t)\<close> on a small value and
  \<open>detail::hash_value(const SlowMPInt &)\<close> on a large one. Neither callee is defined in
  \<open>MPInt.h\<close>, \<open>MPInt.cpp\<close>, \<open>SlowMPInt.h\<close> or \<open>SlowMPInt.cpp\<close>, so both are parameters.
\<close>

definition hash_value :: "(int64 \<Rightarrow> 'h) \<Rightarrow> (SlowMPInt \<Rightarrow> 'h) \<Rightarrow> MPInt \<Rightarrow> 'h" where
  "hash_value hash_int64 hash_slow x =
     (case x of Small v \<Rightarrow> hash_int64 v | Large v \<Rightarrow> hash_slow v)"

text \<open>
  \<open>std::hash<SlowMPInt>\<close> from \<open>SlowMPInt.cpp\<close>: it hashes the bytes of the \<open>|_mp_size|\<close> limbs
  with \<open>std::hash<std::string_view>\<close> and flips the lowest bit for a negative value. GMP
  keeps the limbs normalised, so the bytes are a function of the magnitude; that function
  composed with the library hash is the parameter \<open>hash_view\<close>.
\<close>

definition std_hash_SlowMPInt :: "(nat \<Rightarrow> 64 word) \<Rightarrow> SlowMPInt \<Rightarrow> 64 word" where
  "std_hash_SlowMPInt hash_view s =
     (let result = hash_view (nat \<bar>s\<bar>) in if s < 0 then xor result 1 else result)"

section \<open>Facts about 64-bit words\<close>

lemma sint64_bounds: "- 9223372036854775808 \<le> sint (w :: int64) \<and> sint w \<le> 9223372036854775807"
  using sint_ge [of w] sint_lt [of w] by simp

lemma sint_word_of_int_fits: "fits64 k \<Longrightarrow> sint (word_of_int k :: int64) = k"
  by (simp add: fits64_def sint_sbintrunc' signed_take_bit_int_eq_self)

lemma sint_wrap64:
  assumes "- 18446744073709551616 \<le> k" "k < 18446744073709551616"
  shows "sint (word_of_int k :: int64) =
     (if k < - 9223372036854775808 then k + 18446744073709551616
      else if 9223372036854775807 < k then k - 18446744073709551616 else k)"
proof -
  let ?M = "18446744073709551616 :: int"
  let ?H = "9223372036854775808 :: int"
  have e: "sint (word_of_int k :: int64) = (k + ?H) mod ?M - ?H"
    by (simp add: int_word_sint)
  consider (lo) "k < - ?H" | (mid) "- ?H \<le> k" "k < ?H" | (hi) "?H \<le> k" by linarith
  then show ?thesis
  proof cases
    case lo
    have "(k + ?H) mod ?M = (k + ?H + ?M) mod ?M" by (simp only: mod_add_self2)
    also have "\<dots> = k + ?H + ?M" using lo assms by (intro mod_pos_pos_trivial) linarith+
    finally show ?thesis using lo e by simp
  next
    case mid
    have "(k + ?H) mod ?M = k + ?H" using mid by (intro mod_pos_pos_trivial) linarith+
    then show ?thesis using mid e by simp
  next
    case hi
    have "(k + ?H) mod ?M = (k + ?H - ?M) mod ?M" by (simp only: minus_mod_self2)
    also have "\<dots> = k + ?H - ?M" using hi assms by (intro mod_pos_pos_trivial) linarith+
    finally show ?thesis using hi e by simp
  qed
qed

lemma sint_add64:
  "sint (x + y :: int64) =
     (if sint x + sint y < - 9223372036854775808 then sint x + sint y + 18446744073709551616
      else if 9223372036854775807 < sint x + sint y then sint x + sint y - 18446744073709551616
      else sint x + sint y)"
proof -
  have "x + y = word_of_int (sint x + sint y)" by simp
  then show ?thesis
    using sint_wrap64 [of "sint x + sint y"] sint64_bounds [of x] sint64_bounds [of y]
    by (simp only:) linarith
qed

lemma sint_sub64:
  "sint (x - y :: int64) =
     (if sint x - sint y < - 9223372036854775808 then sint x - sint y + 18446744073709551616
      else if 9223372036854775807 < sint x - sint y then sint x - sint y - 18446744073709551616
      else sint x - sint y)"
proof -
  have "x - y = word_of_int (sint x - sint y)" by simp
  then show ?thesis
    using sint_wrap64 [of "sint x - sint y"] sint64_bounds [of x] sint64_bounds [of y]
    by (simp only:) linarith
qed

lemma AddOverflow_builtin: "AddOverflow x y = builtin_overflow (sint x + sint y)"
proof -
  have r: "word_of_int (sint x + sint y) = x + y" by simp
  show ?thesis
  using sint64_bounds [of x] sint64_bounds [of y]
  unfolding AddOverflow_def builtin_overflow_def Let_def fits64_def r sint_add64
  by (simp split: if_splits)
qed

lemma SubOverflow_builtin: "SubOverflow x y = builtin_overflow (sint x - sint y)"
proof -
  have r: "word_of_int (sint x - sint y) = x - y" by simp
  show ?thesis
  using sint64_bounds [of x] sint64_bounds [of y]
  unfolding SubOverflow_def builtin_overflow_def Let_def fits64_def r sint_sub64
  by (simp split: if_splits)
qed

lemma uint_sint64:
  "uint (x :: int64) = (if sint x < 0 then sint x + 18446744073709551616 else sint x)"
proof -
  have e: "uint x = sint x mod 18446744073709551616"
    by (simp add: uint_sint take_bit_eq_mod)
  show ?thesis
  proof (cases "sint x < 0")
    case True
    have "sint x mod 18446744073709551616 = (sint x + 18446744073709551616) mod 18446744073709551616"
      by (simp only: mod_add_self2)
    also have "\<dots> = sint x + 18446744073709551616"
      using True sint64_bounds [of x] by (intro mod_pos_pos_trivial) linarith+
    finally show ?thesis using True e by simp
  next
    case False
    have "sint x mod 18446744073709551616 = sint x"
      using False sint64_bounds [of x] by (intro mod_pos_pos_trivial) linarith+
    then show ?thesis using False e by simp
  qed
qed

lemma uint_magnitude64:
  "uint (if sint x < 0 then 0 - x else (x :: int64)) = \<bar>sint x\<bar>"
proof (cases "sint x < 0")
  case True
  have "uint (- x) = (- uint x) mod 18446744073709551616"
    by (simp add: uint_word_ariths)
  also have "\<dots> = (- sint x - 18446744073709551616) mod 18446744073709551616"
    using True by (simp add: uint_sint64)
  also have "\<dots> = (- sint x) mod 18446744073709551616"
    by (simp only: minus_mod_self2)
  also have "\<dots> = - sint x"
    using True sint64_bounds [of x] by (intro mod_pos_pos_trivial) linarith+
  finally show ?thesis using True by simp
next
  case False
  then show ?thesis by (simp add: uint_sint64)
qed

lemma int_div_less_iff:
  fixes m n q :: int
  assumes "0 < q"
  shows "m div q < n \<longleftrightarrow> m < n * q"
proof -
  have "(m + (- n) * q) div q = - n + m div q"
    using assms by (simp only: div_mult_self1)
  moreover have "((m + (- n) * q) div q < 0) = (m + (- n) * q < 0)"
    using assms by (rule pos_imp_zdiv_neg_iff)
  ultimately show ?thesis by simp
qed

lemma MulOverflow_result: "snd (MulOverflow x y) = x * y"
  by (simp add: MulOverflow_def Let_def)

lemma MulOverflow_flag: "fst (MulOverflow x y) = (\<not> fits64 (sint x * sint y))"
proof -
  define UX where "UX = (if sint x < 0 then 0 - x else x)"
  define UY where "UY = (if sint y < 0 then 0 - y else y)"
  have ux: "uint UX = \<bar>sint x\<bar>" unfolding UX_def by (rule uint_magnitude64)
  have uy: "uint UY = \<bar>sint y\<bar>" unfolding UY_def by (rule uint_magnitude64)
  have zx: "UX = 0 \<longleftrightarrow> sint x = 0"
    using ux by (simp add: word_uint_eq_iff)
  have zy: "UY = 0 \<longleftrightarrow> sint y = 0"
    using uy by (simp add: word_uint_eq_iff)
  have max1: "uint (INT64_MAX + 1) = 9223372036854775808"
    by (simp add: INT64_MAX_def)
  have max0: "uint INT64_MAX = 9223372036854775807"
    by (simp add: INT64_MAX_def)
  have f: "fst (MulOverflow x y) =
      (if UX = 0 \<or> UY = 0 then False
       else if (sint x < 0) \<noteq> (sint y < 0) then (INT64_MAX + 1) div UY < UX
       else INT64_MAX div UY < UX)"
    by (simp add: MulOverflow_def Let_def UX_def UY_def)
  show ?thesis
  proof (cases "sint x = 0 \<or> sint y = 0")
    case True
    then have z: "sint x * sint y = 0" by auto
    have "\<not> fst (MulOverflow x y)" using True f zx zy by auto
    then show ?thesis unfolding z by (simp add: fits64_def)
  next
    case False
    then have nz: "UX \<noteq> 0" "UY \<noteq> 0" using zx zy by auto
    have py: "0 < \<bar>sint y\<bar>" using False by simp
    show ?thesis
    proof (cases "(sint x < 0) \<noteq> (sint y < 0)")
      case True
      have p: "sint x * sint y = - (\<bar>sint x\<bar> * \<bar>sint y\<bar>)"
        using True False by (auto simp: abs_if)
      have pos: "0 < \<bar>sint x\<bar> * \<bar>sint y\<bar>" using False by simp
      have "fst (MulOverflow x y) = ((INT64_MAX + 1) div UY < UX)"
        using f nz True by simp
      also have "\<dots> = (9223372036854775808 div \<bar>sint y\<bar> < \<bar>sint x\<bar>)"
        by (simp add: word_less_def uint_div ux uy max1)
      also have "\<dots> = (9223372036854775808 < \<bar>sint x\<bar> * \<bar>sint y\<bar>)"
        using py by (rule int_div_less_iff)
      also have "\<dots> = (\<not> fits64 (sint x * sint y))"
        unfolding p fits64_def using pos by linarith
      finally show ?thesis .
    next
      case F2: False
      have p: "sint x * sint y = \<bar>sint x\<bar> * \<bar>sint y\<bar>"
        using F2 False by (auto simp: abs_if)
      have pos: "0 < \<bar>sint x\<bar> * \<bar>sint y\<bar>" using False by simp
      have "fst (MulOverflow x y) = (INT64_MAX div UY < UX)"
        using f nz F2 by simp
      also have "\<dots> = (9223372036854775807 div \<bar>sint y\<bar> < \<bar>sint x\<bar>)"
        by (simp add: word_less_def uint_div ux uy max0)
      also have "\<dots> = (9223372036854775807 < \<bar>sint x\<bar> * \<bar>sint y\<bar>)"
        using py by (rule int_div_less_iff)
      also have "\<dots> = (\<not> fits64 (sint x * sint y))"
        unfolding p fits64_def using pos by linarith
      finally show ?thesis .
    qed
  qed
qed

lemma MulOverflow_builtin: "MulOverflow x y = builtin_overflow (sint x * sint y)"
proof -
  have "word_of_int (sint x * sint y) = x * y" by simp
  then show ?thesis
    using MulOverflow_flag [of x y] MulOverflow_result [of x y]
    by (simp add: builtin_overflow_def prod_eq_iff)
qed

lemma sint_add_fits: "fits64 (sint a + sint b) \<Longrightarrow> sint (a + b :: int64) = sint a + sint b"
  by (simp add: sint_add64 fits64_def)

lemma sint_sub_fits: "fits64 (sint a - sint b) \<Longrightarrow> sint (a - b :: int64) = sint a - sint b"
  by (simp add: sint_sub64 fits64_def)

lemma sint_mul_fits: "fits64 (sint a * sint b) \<Longrightarrow> sint (a * b :: int64) = sint a * sint b"
  using sint_word_of_int_fits [of "sint a * sint b"] by simp

section \<open>Truncating division\<close>

lemma INT64_MIN_iff: "a = INT64_MIN \<longleftrightarrow> sint a = - 9223372036854775808"
proof
  assume "a = INT64_MIN" then show "sint a = - 9223372036854775808" by (simp add: INT64_MIN_def)
next
  assume h: "sint a = - 9223372036854775808"
  have "a = word_of_int (sint a)" by simp
  then show "a = INT64_MIN" unfolding h INT64_MIN_def .
qed

lemma minus_one_iff: "(b :: int64) = - 1 \<longleftrightarrow> sint b = - 1"
proof
  assume "b = - 1" then show "sint b = - 1" by simp
next
  assume h: "sint b = - 1"
  have "b = word_of_int (sint b)" by simp
  then show "b = - 1" unfolding h by simp
qed

lemma zero_iff: "(b :: int64) = 0 \<longleftrightarrow> sint b = 0"
proof
  assume "b = 0" then show "sint b = 0" by simp
next
  assume h: "sint b = 0"
  have "b = word_of_int (sint b)" by simp
  then show "b = 0" unfolding h by simp
qed

lemma sdiv_nonneg: "0 \<le> k \<Longrightarrow> 0 < l \<Longrightarrow> k sdiv l = k div (l :: int)"
  by (cases "k = 0") (simp_all add: signed_divide_int_def)

lemma sdiv_nonpos: "k \<le> 0 \<Longrightarrow> l < 0 \<Longrightarrow> k sdiv l = k div (l :: int)"
proof -
  assume a: "k \<le> 0" "l < 0"
  have "k sdiv l = (- k) div (- l)"
    using a by (cases "k = 0") (simp_all add: signed_divide_int_def)
  then show ?thesis by simp
qed

lemma sdiv_minus_left: "(- k) sdiv l = - (k sdiv (l :: int))"
  by (simp add: signed_divide_int_def sgn_minus)

lemma sdiv_fits64:
  assumes "\<not> divWouldOverflow a b"
  shows "fits64 (sint a sdiv sint b)"
proof (cases "a = INT64_MIN")
  case False
  then have "sint a \<noteq> - 9223372036854775808" by (simp add: INT64_MIN_iff)
  then have "\<bar>sint a\<bar> \<le> 9223372036854775807" using sint64_bounds [of a] by linarith
  then show ?thesis using sdiv_int_range [of "sint a" "sint b"] by (simp add: fits64_def)
next
  case True
  then have A: "sint a = - 9223372036854775808" by (simp add: INT64_MIN_iff)
  from True assms have "sint b \<noteq> - 1" by (simp add: divWouldOverflow_def minus_one_iff)
  then consider (z) "sint b = 0" | (one) "sint b = 1" | (big) "2 \<le> \<bar>sint b\<bar>" by linarith
  then show ?thesis
  proof cases
    case z then show ?thesis by (simp add: fits64_def)
  next
    case one then show ?thesis by (simp add: A fits64_def)
  next
    case big
    have "\<bar>sint a\<bar> div \<bar>sint b\<bar> \<le> \<bar>sint a\<bar> div 2"
      using big by (intro zdiv_mono2) simp_all
    then have le: "\<bar>sint a\<bar> div \<bar>sint b\<bar> \<le> 4611686018427387904" by (simp add: A)
    have ge: "0 \<le> \<bar>sint a\<bar> div \<bar>sint b\<bar>" by (simp add: div_int_pos_iff)
    have "\<bar>sint a sdiv sint b\<bar> = \<bar>sint a\<bar> div \<bar>sint b\<bar>"
    proof -
      have "sint b \<noteq> 0" using big by linarith
      then show ?thesis using A ge by (simp add: signed_divide_int_def abs_mult abs_sgn_eq)
    qed
    then show ?thesis using le by (simp add: fits64_def) linarith
  qed
qed

lemma c_div_ok:
  assumes "sint b \<noteq> 0" "\<not> divWouldOverflow a b"
  shows "c_div a b = Inr (word_of_int (sint a sdiv sint b))"
    and "sint (word_of_int (sint a sdiv sint b) :: int64) = sint a sdiv sint b"
  using assms sdiv_fits64 [OF assms(2)] by (auto simp: c_div_def sint_word_of_int_fits)

lemma positive_no_div_overflow: "0 < sint b \<Longrightarrow> \<not> divWouldOverflow a b"
  by (auto simp: divWouldOverflow_def)

section \<open>Checked multiplication\<close>

text \<open>C9: \<open>MulOverflow\<close>, which multiplies the magnitudes as unsigned words, takes the sign
  as the exclusive or of the operand signs and compares one magnitude with the quotient of
  the largest allowed magnitude by the other, reports an overflow exactly when the exact
  product of the two signed values is not a 64-bit signed integer; the stored result is
  the truncated product.\<close>

theorem C9_MulOverflow_exact:
  "MulOverflow x y = (\<not> fits64 (sint x * sint y), word_of_int (sint x * sint y))"
  using MulOverflow_builtin [of x y] by (simp add: builtin_overflow_def)

theorem C9_MulOverflow_exact_witness:
  "MulOverflow INT64_MIN (- 1) = (True, INT64_MIN) \<and> MulOverflow INT64_MIN 1 = (False, INT64_MIN)
   \<and> MulOverflow 3037000500 3037000500 = (True, 9223372037000250000)
   \<and> MulOverflow (- 3037000499) 3037000499 = (False, - 9223372030926249001)"
  using C9_MulOverflow_exact [of INT64_MIN "- 1"] C9_MulOverflow_exact [of INT64_MIN 1]
    C9_MulOverflow_exact [of 3037000500 3037000500]
    C9_MulOverflow_exact [of "- 3037000499" 3037000499]
  by (simp add: INT64_MIN_def fits64_def)

section \<open>Floor and ceiling division, Euclidean modulo\<close>

lemma floor_via_trunc_pos:
  fixes A B :: int
  assumes "0 < B" "A < 0"
  shows "- ((- A - 1) sdiv B) - 1 = A div B"
proof -
  define k where "k = - A - 1"
  have k: "0 \<le> k" "A = - k - 1" using assms by (simp_all add: k_def)
  have "A div B = - (k div B) - 1"
  proof (rule int_div_pos_eq [where r = "B - 1 - k mod B"])
    have "k = B * (k div B) + k mod B" by simp
    then have "- k - 1 = B * (- (k div B) - 1) + (B - 1 - k mod B)"
      by (simp add: algebra_simps)
    then show "A = B * (- (k div B) - 1) + (B - 1 - k mod B)" using k(2) by simp
    show "0 \<le> B - 1 - k mod B" using pos_mod_bound [OF assms(1), of k] by linarith
    show "B - 1 - k mod B < B" using pos_mod_sign [OF assms(1), of k] by linarith
  qed
  moreover have "k sdiv B = k div B" using k(1) assms(1) by (rule sdiv_nonneg)
  ultimately show ?thesis by (simp add: k_def)
qed

lemma floor_via_trunc_neg:
  fixes A B :: int
  assumes "B < 0" "0 < A"
  shows "- ((- A + 1) sdiv B) - 1 = A div B"
proof -
  define s where "s = - A + 1"
  have s: "s \<le> 0" "A = 1 - s" using assms by (simp_all add: s_def)
  have "A div B = - (s div B) - 1"
  proof (rule int_div_neg_eq [where r = "B + 1 - s mod B"])
    have "s = B * (s div B) + s mod B" by simp
    then have "1 - s = B * (- (s div B) - 1) + (B + 1 - s mod B)"
      by (simp add: algebra_simps)
    then show "A = B * (- (s div B) - 1) + (B + 1 - s mod B)" using s(2) by simp
    show "B + 1 - s mod B \<le> 0" using neg_mod_bound [OF assms(1), of s] by linarith
    show "B < B + 1 - s mod B" using neg_mod_sign [OF assms(1), of s] by linarith
  qed
  moreover have "s sdiv B = s div B" using s(1) assms(1) by (rule sdiv_nonpos)
  ultimately show ?thesis by (simp add: s_def)
qed

lemma ceil_via_trunc_pos:
  fixes A B :: int
  assumes "0 < A" "0 < B"
  shows "(A - 1) sdiv B + 1 = - ((- A) div B)"
  using floor_via_trunc_pos [of B "- A"] assms by simp

lemma ceil_via_trunc_neg:
  fixes A B :: int
  assumes "A < 0" "B < 0"
  shows "(A + 1) sdiv B + 1 = - ((- A) div B)"
  using floor_via_trunc_neg [of B "- A"] assms by simp

lemma sdiv_eq_div_same_sign:
  fixes A B :: int
  assumes "B \<noteq> 0" "A = 0 \<or> (A < 0) = (B < 0)"
  shows "A sdiv B = A div B"
proof (cases "B < 0")
  case True
  then have "A \<le> 0" using assms by auto
  then show ?thesis using True by (rule sdiv_nonpos)
next
  case False
  then have "0 < B" "0 \<le> A" using assms by auto
  then show ?thesis using sdiv_nonneg by simp
qed

lemma sdiv_half_bound:
  fixes K B :: int
  assumes "2 \<le> \<bar>B\<bar>"
  shows "\<bar>K sdiv B\<bar> \<le> \<bar>K\<bar> div 2"
proof -
  have nz: "B \<noteq> 0" using assms by linarith
  have "\<bar>K\<bar> div \<bar>B\<bar> \<le> \<bar>K\<bar> div 2" using assms by (intro zdiv_mono2) simp_all
  moreover have "0 \<le> \<bar>K\<bar> div \<bar>B\<bar>" by (simp add: div_int_pos_iff)
  ultimately show ?thesis using nz
    by (cases "K = 0") (simp_all add: signed_divide_int_def abs_mult abs_sgn_eq)
qed

lemma math_mod_value:
  fixes A B :: int
  assumes "0 < B"
  shows "(if A smod B < 0 then A smod B + B else A smod B) = A mod B"
proof -
  have e: "A smod B = A mod B - B * of_bool (sgn A \<noteq> sgn B \<and> \<not> B dvd A)"
    by (rule signed_modulo_int_eq_modulo_int)
  have b: "0 \<le> A mod B" "A mod B < B"
    using assms by simp_all
  show ?thesis
  proof (cases "sgn A \<noteq> sgn B \<and> \<not> B dvd A")
    case True
    then have "A smod B = A mod B - B" using e by simp
    then show ?thesis using b by simp
  next
    case False
    then have "A smod B = A mod B" using e by auto
    then show ?thesis using b by simp
  qed
qed

lemma c_add_ok:
  assumes "fits64 (sint x + sint y)"
  shows "c_add x y = Inr (x + y)" and "sint (x + y) = sint x + sint y"
  using assms by (simp_all add: c_add_def sint_add_fits)

lemma c_sub_ok:
  assumes "fits64 (sint x - sint y)"
  shows "c_sub x y = Inr (x - y)" and "sint (x - y) = sint x - sint y"
  using assms by (simp_all add: c_sub_def sint_sub_fits)

lemma c_neg_ok:
  assumes "fits64 (- sint x)"
  shows "c_neg x = Inr (- x)" and "sint (- x) = - sint x"
proof -
  show "c_neg x = Inr (- x)" using assms by (simp add: c_neg_def)
  have "sint (word_of_int (- sint x) :: int64) = - sint x"
    using assms by (rule sint_word_of_int_fits)
  then show "sint (- x) = - sint x" by simp
qed

lemma not_MIN_bound: "a \<noteq> INT64_MIN \<Longrightarrow> \<bar>sint a\<bar> \<le> 9223372036854775807"
  using sint64_bounds [of a] by (simp add: INT64_MIN_iff) linarith

lemma math_floorDiv_ok:
  assumes nz: "b \<noteq> 0" and dom: "a \<noteq> INT64_MIN \<or> sint b < - 1"
  shows "\<exists>q. math_floorDiv a b = Inr q \<and> sint q = sint a div sint b"
proof -
  have B: "sint b \<noteq> 0" using nz by (simp add: zero_iff)
  show ?thesis
  proof (cases "a \<noteq> 0 \<and> ((sint a < 0) \<noteq> (sint b < 0))")
    case True
    then have A0: "sint a \<noteq> 0" by (simp add: zero_iff)
    have notmin: "a \<noteq> INT64_MIN"
    proof
      assume m: "a = INT64_MIN"
      then have "sint a < 0" by (simp add: INT64_MIN_def)
      moreover have "sint b < 0" using m dom by auto
      ultimately show False using True by simp
    qed
    note ba = not_MIN_bound [OF notmin]
    define x :: int64 where "x = (if sint b < 0 then 1 else - 1)"
    have sx: "sint x = (if sint b < 0 then 1 else - 1)" by (simp add: x_def)
    have "fits64 (- sint a)" using ba unfolding fits64_def by linarith
    note n = c_neg_ok [OF this]
    have sbound: "\<bar>- sint a + sint x\<bar> \<le> 9223372036854775806"
      using True A0 B ba sx by (auto split: if_splits)
    then have fs: "fits64 (sint (- a) + sint x)" unfolding n(2) fits64_def by linarith
    have s: "c_add (- a) x = Inr (- a + x)" "sint (- a + x) = - sint a + sint x"
      using c_add_ok [OF fs] n(2) by simp_all
    have "- a + x \<noteq> INT64_MIN" using sbound s(2) by (auto simp: INT64_MIN_iff)
    then have ndo: "\<not> divWouldOverflow (- a + x) b" by (simp add: divWouldOverflow_def)
    define q :: int64 where "q = word_of_int (sint (- a + x) sdiv sint b)"
    have q: "c_div (- a + x) b = Inr q" "sint q = (- sint a + sint x) sdiv sint b"
      using c_div_ok [OF B ndo] s(2) by (simp_all add: q_def)
    have qb: "\<bar>sint q\<bar> \<le> 9223372036854775806"
      using sdiv_int_range [of "- sint a + sint x" "sint b"] sbound q(2) by auto
    then have "fits64 (- sint q)" unfolding fits64_def by linarith
    note m = c_neg_ok [OF this]
    have "fits64 (sint (- q) - sint (1 :: int64))" using qb m(2) unfolding fits64_def by simp linarith
    from c_sub_ok [OF this] have r: "c_sub (- q) 1 = Inr (- q - 1)" "sint (- q - 1) = - sint q - 1"
      using m(2) by simp_all
    have val: "- sint q - 1 = sint a div sint b"
    proof (cases "sint b < 0")
      case True
      with \<open>a \<noteq> 0 \<and> ((sint a < 0) \<noteq> (sint b < 0))\<close> A0 have "0 < sint a" by auto
      from floor_via_trunc_neg [OF True this] show ?thesis using q(2) sx True by simp
    next
      case False
      with B have bp: "0 < sint b" by simp
      with \<open>a \<noteq> 0 \<and> ((sint a < 0) \<noteq> (sint b < 0))\<close> have "sint a < 0" by auto
      from floor_via_trunc_pos [OF bp this] show ?thesis using q(2) sx False by simp
    qed
    have "math_floorDiv a b = Inr (- q - 1)"
      using nz True n(1) s(1) q(1) m(1) r(1)
      by (simp add: math_floorDiv_def bindE_def x_def [symmetric])
    then show ?thesis using r(2) val by simp
  next
    case False
    have ndo: "\<not> divWouldOverflow a b"
      using dom by (auto simp: divWouldOverflow_def)
    have same: "sint a = 0 \<or> (sint a < 0) = (sint b < 0)" using False by (auto simp: zero_iff)
    have "math_floorDiv a b = c_div a b" using nz False by (auto simp add: math_floorDiv_def)
    then show ?thesis
      using c_div_ok [OF B ndo] sdiv_eq_div_same_sign [OF B same] by simp
  qed
qed

lemma math_ceilDiv_ok:
  assumes nz: "b \<noteq> 0" and dom: "a \<noteq> INT64_MIN \<or> sint b < - 1"
  shows "\<exists>q. math_ceilDiv a b = Inr q \<and> sint q = - ((- sint a) div sint b)"
proof -
  have B: "sint b \<noteq> 0" using nz by (simp add: zero_iff)
  show ?thesis
  proof (cases "a \<noteq> 0 \<and> ((0 < sint a) = (0 < sint b))")
    case True
    then have A0: "sint a \<noteq> 0" by (simp add: zero_iff)
    define x :: int64 where "x = (if 0 < sint b then - 1 else 1)"
    have sx: "sint x = (if 0 < sint b then - 1 else 1)" by (simp add: x_def)
    have signs: "(0 < sint a \<and> 0 < sint b) \<or> (sint a < 0 \<and> sint b < 0)"
      using True A0 B by auto
    have sb: "\<bar>sint a + sint x\<bar> = \<bar>sint a\<bar> - 1"
      using signs sx by auto
    have sbound: "\<bar>sint a + sint x\<bar> \<le> 9223372036854775807"
      using sb sint64_bounds [of a] by linarith
    then have "fits64 (sint a + sint x)" unfolding fits64_def by linarith
    note s = c_add_ok [OF this]
    have "a + x \<noteq> INT64_MIN" using sbound s(2) by (auto simp: INT64_MIN_iff)
    then have ndo: "\<not> divWouldOverflow (a + x) b" by (simp add: divWouldOverflow_def)
    define q :: int64 where "q = word_of_int (sint (a + x) sdiv sint b)"
    have q: "c_div (a + x) b = Inr q" "sint q = (sint a + sint x) sdiv sint b"
      using c_div_ok [OF B ndo] s(2) by (simp_all add: q_def)
    have qb: "\<bar>sint q\<bar> \<le> 9223372036854775806"
    proof (cases "a = INT64_MIN")
      case False
      then have "\<bar>sint a + sint x\<bar> \<le> 9223372036854775806"
        using sb not_MIN_bound [OF False] by linarith
      then show ?thesis
        using sdiv_int_range [of "sint a + sint x" "sint b"] q(2) by auto
    next
      case True
      then have "2 \<le> \<bar>sint b\<bar>" using dom by auto
      from sdiv_half_bound [OF this, of "sint a + sint x"]
      have "\<bar>sint q\<bar> \<le> \<bar>sint a + sint x\<bar> div 2" using q(2) by simp
      also have "\<dots> \<le> 9223372036854775807 div 2" using sbound by (rule zdiv_mono1) simp
      finally show ?thesis by simp
    qed
    then have "fits64 (sint q + sint (1 :: int64))" unfolding fits64_def by simp linarith
    from c_add_ok [OF this] have r: "c_add q 1 = Inr (q + 1)" "sint (q + 1) = sint q + 1"
      by simp_all
    have val: "sint q + 1 = - ((- sint a) div sint b)"
    proof (cases "0 < sint b")
      case True
      with signs have "0 < sint a" by auto
      from ceil_via_trunc_pos [OF this True] show ?thesis using q(2) sx True by simp
    next
      case False
      with signs have "sint a < 0" "sint b < 0" by auto
      from ceil_via_trunc_neg [OF this] show ?thesis using q(2) sx False by simp
    qed
    have "math_ceilDiv a b = Inr (q + 1)"
      using nz True s(1) q(1) r(1)
      by (simp add: math_ceilDiv_def bindE_def x_def [symmetric])
    then show ?thesis using r(2) val by simp
  next
    case False
    have notmin: "a \<noteq> INT64_MIN"
    proof
      assume m: "a = INT64_MIN"
      then have "\<not> 0 < sint a" "a \<noteq> 0" by (simp_all add: INT64_MIN_def)
      moreover have "\<not> 0 < sint b" using m dom by auto
      ultimately show False using False by simp
    qed
    note ba = not_MIN_bound [OF notmin]
    have "fits64 (- sint a)" using ba unfolding fits64_def by linarith
    note n = c_neg_ok [OF this]
    have "- a \<noteq> INT64_MIN" using ba n(2) by (auto simp: INT64_MIN_iff)
    then have ndo: "\<not> divWouldOverflow (- a) b" by (simp add: divWouldOverflow_def)
    define q :: int64 where "q = word_of_int (sint (- a) sdiv sint b)"
    have q: "c_div (- a) b = Inr q" "sint q = (- sint a) sdiv sint b"
      using c_div_ok [OF B ndo] n(2) by (simp_all add: q_def)
    have "\<bar>sint q\<bar> \<le> 9223372036854775807"
      using sdiv_int_range [of "- sint a" "sint b"] ba q(2) by auto
    then have "fits64 (- sint q)" unfolding fits64_def by linarith
    note m = c_neg_ok [OF this]
    have same: "- sint a = 0 \<or> (- sint a < 0) = (sint b < 0)"
      using False B by (auto simp: zero_iff)
    have val: "- sint q = - ((- sint a) div sint b)"
      using q(2) sdiv_eq_div_same_sign [OF B same] by simp
    have "math_ceilDiv a b = Inr (- q)"
      using nz False n(1) q(1) m(1)
      by (auto simp add: math_ceilDiv_def bindE_def)
    then show ?thesis using m(2) val by simp
  qed
qed

lemma math_mod_ok:
  assumes pos: "0 < sint b"
  shows "\<exists>r. math_mod a b = Inr r \<and> sint r = sint a mod sint b"
proof -
  have B: "sint b \<noteq> 0" "b \<noteq> 0" using pos by auto
  have ndo: "\<not> divWouldOverflow a b" using pos by (rule positive_no_div_overflow)
  have fq: "fits64 (sint a sdiv sint b)" using ndo by (rule sdiv_fits64)
  have rng: "- sint b < sint a smod sint b" "sint a smod sint b < sint b"
    using smod_int_range [OF B(1), of "sint a"] pos by auto
  then have "fits64 (sint a smod sint b)"
    using sint64_bounds [of b] unfolding fits64_def by linarith
  then have sr: "sint (word_of_int (sint a smod sint b) :: int64) = sint a smod sint b"
    by (rule sint_word_of_int_fits)
  define r :: int64 where "r = word_of_int (sint a smod sint b)"
  have r: "c_rem a b = Inr r" "sint r = sint a smod sint b"
    using B(2) fq sr by (simp_all add: c_rem_def r_def)
  have v: "(if sint r < 0 then sint r + sint b else sint r) = sint a mod sint b"
    unfolding r(2) using pos by (rule math_mod_value)
  show ?thesis
  proof (cases "sint r < 0")
    case True
    have "fits64 (sint r + sint b)"
      using True rng r(2) sint64_bounds [of b] unfolding fits64_def by linarith
    note s = c_add_ok [OF this]
    have "math_mod a b = Inr (r + b)"
      using pos r(1) True s(1) by (simp add: math_mod_def bindE_def)
    then show ?thesis using s(2) v True by simp
  next
    case False
    have "math_mod a b = Inr r"
      using pos r(1) False by (simp add: math_mod_def bindE_def)
    then show ?thesis using v False by simp
  qed
qed

lemmas c_ops_eval = c_add_def c_sub_def c_neg_def c_div_def c_rem_def fits64_def bindE_def
  signed_divide_int_def signed_modulo_int_def

lemma division_examples:
  "math_floorDiv (- 7) 2 = Inr (- 4)" "math_ceilDiv (- 7) 2 = Inr (- 3)"
  "math_mod (- 7) 2 = Inr 1" "math_floorDiv 7 (- 2) = Inr (- 4)"
  "math_ceilDiv 7 (- 2) = Inr (- 3)"
  by (simp_all add: math_floorDiv_def math_ceilDiv_def math_mod_def c_ops_eval)

section \<open>The large representation cannot be built\<close>

lemma SlowMPInt_of_sint [simp]: "SlowMPInt_of v = sint v"
  by (simp add: SlowMPInt_of_def mpz_set_si_def)

lemma SlowMPInt_copy_fails: "SlowMPInt_copy v h = Inl UninitialisedMpz"
  by (cases v) (simp_all add: SlowMPInt_copy_def mpz_set_def mpz_value_def mpz_store_def
      bindE_def split: option.splits)

lemma SlowMPInt_copy_value_fails [simp]: "SlowMPInt_copy_value val = Inl UninitialisedMpz"
  by (simp add: SlowMPInt_copy_value_def SlowMPInt_copy_fails bindE_def)

lemma MPInt_from_Slow_fails [simp]: "MPInt_from_Slow val = Inl UninitialisedMpz"
  by (simp add: MPInt_from_Slow_def bindE_def)

lemma bindE_Inl [simp]: "bindE (Inl e) f = Inl e"
  by (simp add: bindE_def)

lemma bindE_Inr [simp]: "bindE (Inr v) f = f v"
  by (simp add: bindE_def)

lemma bindE_fails [simp]: "bindE m (\<lambda>x. Inl e) = (case m of Inl e' \<Rightarrow> Inl e' | Inr v \<Rightarrow> Inl e)"
  by (cases m) simp_all

lemma MPInt_copy_value_eq:
  "MPInt_copy_value x = (case x of Small v \<Rightarrow> Inr (Small v) | Large v \<Rightarrow> Inl UninitialisedMpz)"
  by (cases x) (simp_all add: MPInt_copy_value_def)

lemma MPInt_add_Small:
  "MPInt_add (Small a) (Small b) =
     (if fits64 (sint a + sint b) then Inr (Small (a + b)) else Inl UninitialisedMpz)"
  by (simp add: addOverflow_def AddOverflow_builtin builtin_overflow_def)

lemma MPInt_sub_Small:
  "MPInt_sub (Small a) (Small b) =
     (if fits64 (sint a - sint b) then Inr (Small (a - b)) else Inl UninitialisedMpz)"
  by (simp add: subOverflow_def SubOverflow_builtin builtin_overflow_def)

lemma MPInt_mul_Small:
  "MPInt_mul (Small a) (Small b) =
     (if fits64 (sint a * sint b) then Inr (Small (a * b)) else Inl UninitialisedMpz)"
  by (simp add: mulOverflow_def MulOverflow_builtin builtin_overflow_def)

lemma MPInt_neg_eq:
  "MPInt_neg x =
     (case x of Small a \<Rightarrow> if a \<noteq> INT64_MIN then Inr (Small (- a)) else Inl UninitialisedMpz
      | Large v \<Rightarrow> Inl UninitialisedMpz)"
  by (cases x) simp_all

lemma MPInt_div_Small:
  assumes "b \<noteq> 0"
  shows "MPInt_div (Small a) (Small b) =
     (if divWouldOverflow a b then Inl UninitialisedMpz
      else Inr (Small (word_of_int (sint a sdiv sint b))))"
proof (cases "divWouldOverflow a b")
  case True
  then show ?thesis by (simp add: divWouldOverflow_def)
next
  case False
  have "sint b \<noteq> 0" using assms by (simp add: zero_iff)
  from c_div_ok(1) [OF this False] show ?thesis using False by simp
qed

lemma large_operand_fails:
  assumes "isLarge x \<or> isLarge y"
  shows "MPInt_add x y = Inl UninitialisedMpz" "MPInt_sub x y = Inl UninitialisedMpz"
    "MPInt_mul x y = Inl UninitialisedMpz" "MPInt_div x y = Inl UninitialisedMpz"
    "MPInt_rem x y = Inl UninitialisedMpz"
    "MPInt_add_assign x y = Inl UninitialisedMpz" "MPInt_sub_assign x y = Inl UninitialisedMpz"
    "MPInt_mul_assign x y = Inl UninitialisedMpz" "MPInt_div_assign x y = Inl UninitialisedMpz"
    "MPInt_rem_assign x y = Inl UninitialisedMpz"
    "MPInt_ceilDiv x y = Inl UninitialisedMpz" "MPInt_floorDiv x y = Inl UninitialisedMpz"
    "MPInt_mod x y = Inl UninitialisedMpz"
  using assms by (cases x; cases y; simp add: MPInt_rem_assign_def)+

section \<open>Promotion on overflow\<close>

text \<open>C4: dividing the minimum 64-bit value by \<open>-1\<close>, with \<open>operator/\<close> or \<open>operator/=\<close>,
  takes the \<open>divWouldOverflow\<close> branch and negates on the promoted operand, where the
  adapter computes \<open>2^63\<close>; the private constructor then copies that result into an
  \<open>mpz_t\<close> that was never initialised, so no \<open>MPInt\<close> is returned.\<close>

theorem C4_min_div_minus_one_uninitialised:
  "MPInt_div (Small INT64_MIN) (Small (- 1)) = Inl UninitialisedMpz
   \<and> MPInt_div_assign (Small INT64_MIN) (Small (- 1)) = Inl UninitialisedMpz
   \<and> Slow_neg (SlowMPInt_of INT64_MIN) = 9223372036854775808"
  by (simp add: divWouldOverflow_def Slow_neg_def mpz_neg_def INT64_MIN_def)

lemma MPInt_add_exact_when_fits:
  assumes "fits64 (sint a + sint b)"
  shows "\<exists>r. MPInt_add (Small a) (Small b) = Inr (Small r) \<and> sint r = sint a + sint b"
  using assms by (simp add: MPInt_add_Small sint_add_fits del: MPInt_add.simps(1))

text \<open>C5 at \<open>a = b = 9223372036854775807\<close>: the checked add reports the overflow, the
  adapter computes the exact sum \<open>18446744073709551614\<close>, and the private constructor
  copies it into an \<open>mpz_t\<close> that was never initialised, so no \<open>MPInt\<close> is returned.\<close>

theorem C5_add_overflow_uninitialised:
  "MPInt_add (Small INT64_MAX) (Small INT64_MAX) = Inl UninitialisedMpz
   \<and> fst (addOverflow INT64_MAX INT64_MAX)
   \<and> Slow_add (SlowMPInt_of INT64_MAX) (SlowMPInt_of INT64_MAX) = 18446744073709551614"
  by (simp add: MPInt_add_Small addOverflow_def AddOverflow_builtin builtin_overflow_def
      fits64_def INT64_MAX_def Slow_add_def mpz_add_def del: MPInt_add.simps(1))

section \<open>Division by a known positive divisor\<close>

text \<open>C8: when the divisor is strictly positive, \<open>divByPositive\<close> returns what \<open>operator/\<close>
  returns and \<open>divByPositiveInPlace\<close> what \<open>operator/=\<close> returns; on two small operands
  that is the truncated quotient, in the small representation.\<close>

theorem C8_divByPositive_eq_div:
  assumes "MPInt_gt_i64 y 0"
  shows "divByPositive x y = MPInt_div x y
       \<and> divByPositiveInPlace x y = MPInt_div_assign x y
       \<and> (\<forall>a b. x = Small a \<and> y = Small b \<longrightarrow>
             divByPositive x y = Inr (Small (word_of_int (sint a sdiv sint b)))
           \<and> sint (word_of_int (sint a sdiv sint b) :: int64) = sint a sdiv sint b)"
proof (intro conjI allI impI)
  show "divByPositive x y = MPInt_div x y"
    using assms by (cases x; cases y) (simp_all add: positive_no_div_overflow)
  show "divByPositiveInPlace x y = MPInt_div_assign x y"
    using assms by (cases x; cases y) (simp_all add: positive_no_div_overflow)
next
  fix a b assume xy: "x = Small a \<and> y = Small b"
  then have pos: "0 < sint b" using assms by simp
  then have nz: "sint b \<noteq> 0" by simp
  note ok = c_div_ok [OF nz positive_no_div_overflow [OF pos], of a]
  show "divByPositive x y = Inr (Small (word_of_int (sint a sdiv sint b)))"
    using xy pos ok(1) by simp
  show "sint (word_of_int (sint a sdiv sint b) :: int64) = sint a sdiv sint b"
    by (rule ok(2))
qed

theorem C8_divByPositive_eq_div_witness:
  "divByPositive (Small (- 7)) (Small 2) = Inr (Small (- 3))
   \<and> MPInt_div (Small (- 7)) (Small 2) = Inr (Small (- 3))
   \<and> divByPositiveInPlace (Small INT64_MIN) (Small 1) = Inr (Small INT64_MIN)
   \<and> MPInt_div_assign (Small INT64_MIN) (Small 1) = Inr (Small INT64_MIN)"
proof -
  have a: "MPInt_gt_i64 (Small 2) 0" by simp
  have b: "MPInt_gt_i64 (Small 1) 0" by simp
  note t1 = C8_divByPositive_eq_div [OF a, of "Small (- 7)"]
  note t2 = C8_divByPositive_eq_div [OF b, of "Small INT64_MIN"]
  have v1: "divByPositive (Small (- 7)) (Small 2) = Inr (Small (- 3))"
    using t1 [THEN conjunct2, THEN conjunct2, rule_format, of "- 7" 2]
    by (simp add: signed_divide_int_def)
  have v2: "MPInt_div_assign (Small INT64_MIN) (Small 1) = Inr (Small INT64_MIN)"
    by (simp add: INT64_MIN_def divWouldOverflow_def c_div_def fits64_def)
  from t1 [THEN conjunct1] v1 have 1: "MPInt_div (Small (- 7)) (Small 2) = Inr (Small (- 3))"
    by simp
  from t2 [THEN conjunct2, THEN conjunct1] v2
  have 2: "divByPositiveInPlace (Small INT64_MIN) (Small 1) = Inr (Small INT64_MIN)" by simp
  from v1 1 2 v2 show ?thesis by (intro conjI)
qed

section \<open>Fast path against fallback path\<close>

text \<open>C1 at \<open>a = -7\<close>, \<open>b = 2\<close>: the small path of \<open>operator%\<close> returns the C++ remainder
  \<open>-1\<close>; the same operands promoted, \<open>SlowMPInt(-7) % SlowMPInt(2)\<close>, go through \<open>mpz_mod\<close>
  and give \<open>1\<close>. Operands that already are large cannot even be converted: \<open>operator%\<close>
  on them returns nothing.\<close>

theorem C1_rem_fast_and_fallback_differ:
  "MPInt_rem (Small (- 7)) (Small 2) = Inr (Small (- 1))
   \<and> bindE (toSlow (Small (- 7))) (\<lambda>x. bindE (toSlow (Small 2)) (\<lambda>y. Slow_rem x y)) = Inr 1
   \<and> MPInt_rem (Large (- 7)) (Large 2) = Inl UninitialisedMpz"
  by (simp add: c_rem_def fits64_def signed_divide_int_def signed_modulo_int_def
      Slow_rem_def mpz_mod_def)

lemma fast_path_agrees_with_fallback:
  "fits64 (sint a + sint b) \<Longrightarrow> MPInt_add (Small a) (Small b) = Inr (Small (a + b))
     \<and> Slow_add (SlowMPInt_of a) (SlowMPInt_of b) = SlowMPInt_of (a + b)"
  "fits64 (sint a - sint b) \<Longrightarrow> MPInt_sub (Small a) (Small b) = Inr (Small (a - b))
     \<and> Slow_sub (SlowMPInt_of a) (SlowMPInt_of b) = SlowMPInt_of (a - b)"
  "fits64 (sint a * sint b) \<Longrightarrow> MPInt_mul (Small a) (Small b) = Inr (Small (a * b))
     \<and> Slow_mul (SlowMPInt_of a) (SlowMPInt_of b) = SlowMPInt_of (a * b)"
  "b \<noteq> 0 \<Longrightarrow> \<not> divWouldOverflow a b \<Longrightarrow>
     \<exists>q. MPInt_div (Small a) (Small b) = Inr (Small q)
       \<and> Slow_div (SlowMPInt_of a) (SlowMPInt_of b) = Inr (SlowMPInt_of q)"
proof -
  show "fits64 (sint a + sint b) \<Longrightarrow> MPInt_add (Small a) (Small b) = Inr (Small (a + b))
     \<and> Slow_add (SlowMPInt_of a) (SlowMPInt_of b) = SlowMPInt_of (a + b)"
    by (simp add: MPInt_add_Small sint_add_fits Slow_add_def mpz_add_def del: MPInt_add.simps(1))
  show "fits64 (sint a - sint b) \<Longrightarrow> MPInt_sub (Small a) (Small b) = Inr (Small (a - b))
     \<and> Slow_sub (SlowMPInt_of a) (SlowMPInt_of b) = SlowMPInt_of (a - b)"
    by (simp add: MPInt_sub_Small sint_sub_fits Slow_sub_def mpz_sub_def del: MPInt_sub.simps(1))
  show "fits64 (sint a * sint b) \<Longrightarrow> MPInt_mul (Small a) (Small b) = Inr (Small (a * b))
     \<and> Slow_mul (SlowMPInt_of a) (SlowMPInt_of b) = SlowMPInt_of (a * b)"
    by (simp add: MPInt_mul_Small sint_mul_fits Slow_mul_def mpz_mul_def del: MPInt_mul.simps(1))
  assume nz: "b \<noteq> 0" and ndo: "\<not> divWouldOverflow a b"
  have B: "sint b \<noteq> 0" using nz by (simp add: zero_iff)
  from c_div_ok [OF B ndo] MPInt_div_Small [OF nz, of a] ndo
  show "\<exists>q. MPInt_div (Small a) (Small b) = Inr (Small q)
       \<and> Slow_div (SlowMPInt_of a) (SlowMPInt_of b) = Inr (SlowMPInt_of q)"
    using B by (simp add: Slow_div_def mpz_tdiv_q_def)
qed

section \<open>Greatest common divisor and least common multiple\<close>

lemma sint_std_gcd:
  assumes "0 \<le> sint a" "0 \<le> sint b"
  shows "sint (std_gcd a b) = gcd (sint a) (sint b)"
proof -
  have "gcd (sint a) (sint b) \<le> 9223372036854775807"
  proof (cases "sint a = 0")
    case True then show ?thesis using assms sint64_bounds [of b] by simp
  next
    case False
    then have "gcd (sint a) (sint b) \<le> sint a" using assms by (intro gcd_le1_int) simp
    then show ?thesis using sint64_bounds [of a] by linarith
  qed
  moreover have "- 9223372036854775808 \<le> gcd (sint a) (sint b)"
    using gcd_ge_0_int [of "sint a" "sint b"] by linarith
  ultimately have "fits64 (gcd (sint a) (sint b))" by (simp add: fits64_def)
  then show ?thesis unfolding std_gcd_def by (rule sint_word_of_int_fits)
qed

lemma MPInt_gcd_Small:
  assumes "0 \<le> sint a" "0 \<le> sint b"
  shows "MPInt_gcd (Small a) (Small b) = Inr (Small (std_gcd a b))"
  using assms by simp

lemma std_gcd_zero:
  assumes "0 \<le> sint a"
  shows "std_gcd a 0 = a"
proof -
  have "word_of_int (sint a) = a" by simp
  then show ?thesis using assms by (simp add: std_gcd_def)
qed

lemma MPInt_abs_Small:
  assumes "a \<noteq> INT64_MIN"
  shows "\<exists>x. MPInt_abs (Small a) = Inr (Small x) \<and> sint x = \<bar>sint a\<bar>"
proof (cases "0 \<le> sint a")
  case True
  then show ?thesis by (simp add: MPInt_abs_def MPInt_copy_value_eq)
next
  case False
  have "fits64 (- sint a)"
    using not_MIN_bound [OF assms] unfolding fits64_def by linarith
  from c_neg_ok(2) [OF this] show ?thesis using False assms by (simp add: MPInt_abs_def)
qed

lemma MPInt_lcm_Small:
  assumes "a \<noteq> INT64_MIN" "b \<noteq> INT64_MIN" "fits64 (\<bar>sint a\<bar> * \<bar>sint b\<bar>)"
    and "\<not> (a = 0 \<and> b = 0)"
  shows "\<exists>l. MPInt_lcm (Small a) (Small b) = Inr (Small l)
     \<and> sint l = \<bar>sint a * sint b\<bar> div gcd \<bar>sint a\<bar> \<bar>sint b\<bar>"
proof -
  obtain x where x: "MPInt_abs (Small a) = Inr (Small x)" "sint x = \<bar>sint a\<bar>"
    using MPInt_abs_Small [OF assms(1)] by auto
  obtain y where y: "MPInt_abs (Small b) = Inr (Small y)" "sint y = \<bar>sint b\<bar>"
    using MPInt_abs_Small [OF assms(2)] by auto
  have f: "fits64 (sint x * sint y)" using assms(3) x(2) y(2) by simp
  have p: "MPInt_mul (Small x) (Small y) = Inr (Small (x * y))"
    using f by (simp add: MPInt_mul_Small del: MPInt_mul.simps(1))
  have sp: "sint (x * y) = \<bar>sint a * sint b\<bar>"
    using sint_mul_fits [OF f] x(2) y(2) by (simp add: abs_mult)
  have nn: "0 \<le> sint x" "0 \<le> sint y" using x(2) y(2) by simp_all
  have g: "MPInt_gcd (Small x) (Small y) = Inr (Small (std_gcd x y))"
    using nn by (rule MPInt_gcd_Small)
  have sg: "sint (std_gcd x y) = gcd \<bar>sint a\<bar> \<bar>sint b\<bar>"
    using sint_std_gcd [OF nn] x(2) y(2) by simp
  have gpos: "0 < sint (std_gcd x y)"
    using sg assms(4) by (simp add: zero_iff)
  then have gnz: "std_gcd x y \<noteq> 0" by (auto simp: zero_iff)
  have ndo: "\<not> divWouldOverflow (x * y) (std_gcd x y)"
    using gpos by (rule positive_no_div_overflow)
  define l :: int64 where "l = word_of_int (sint (x * y) sdiv sint (std_gcd x y))"
  have d: "MPInt_div (Small (x * y)) (Small (std_gcd x y)) = Inr (Small l)"
    using MPInt_div_Small [OF gnz, of "x * y"] ndo by (simp add: l_def)
  have "sint l = sint (x * y) sdiv sint (std_gcd x y)"
    unfolding l_def using gpos ndo by (intro c_div_ok(2)) simp_all
  also have "\<dots> = sint (x * y) div sint (std_gcd x y)"
    using gpos sp by (intro sdiv_nonneg) simp_all
  finally have sl: "sint l = \<bar>sint a * sint b\<bar> div gcd \<bar>sint a\<bar> \<bar>sint b\<bar>"
    using sp sg by simp
  have "MPInt_lcm (Small a) (Small b) = Inr (Small l)"
    using x(1) y(1) p g d by (simp add: MPInt_lcm_def)
  then show ?thesis using sl by blast
qed

text \<open>C7 where the product needs the large representation: for \<open>lcm(2^32, 2^32 + 1)\<close> the
  multiplication overflows, and for \<open>lcm(INT64_MIN, 2)\<close> already \<open>abs\<close> does; either way
  the promoted result is copied into an \<open>mpz_t\<close> that was never initialised and \<open>lcm\<close>
  returns nothing. The same holds for \<open>gcd\<close> on a non-negative large operand.\<close>

theorem C7_lcm_promotion_uninitialised:
  "MPInt_lcm (Small 4294967296) (Small 4294967297) = Inl UninitialisedMpz
   \<and> MPInt_lcm (Small INT64_MIN) (Small 2) = Inl UninitialisedMpz
   \<and> MPInt_gcd (Large 18446744073709551616) (Small 0) = Inl UninitialisedMpz"
  by (simp add: MPInt_lcm_def MPInt_abs_def MPInt_copy_value_eq MPInt_mul_Small fits64_def
      INT64_MIN_def Slow_ge_def mpz_cmp_def del: MPInt_mul.simps(1))

section \<open>No demotion\<close>


lemma assignment_representation:
  "MPInt_assign this (Small v) = Inr (Small v)"
  "MPInt_assign (Large k) (Large m) = Inr (Large m)"
  "MPInt_assign (Small w) (Large m) = Inl UninitialisedMpz"
  "MPInt_assign_int this n = Small (scast n)"
  by (simp_all add: initSmall_def MPInt_assign_int_def)

section \<open>Ceiling division of the minimum value\<close>

lemma math_floorDiv_min_dividend: "math_floorDiv INT64_MIN 2 = Inl SignedOverflow"
  by (simp add: math_floorDiv_def INT64_MIN_def c_ops_eval)

text \<open>C6 at \<open>lhs = INT64_MIN\<close>, \<open>rhs = 2\<close>: \<open>ceilDiv\<close> takes the branch \<open>-(-lhs / rhs)\<close>, and
  negating \<open>INT64_MIN\<close> overflows, also when called through \<open>ceilDiv\<close> on two small
  \<open>MPInt\<close>s, which guards only the divisor \<open>-1\<close>. The exact ceiling \<open>-2^62\<close> is an
  \<open>int64_t\<close>, and the fallback returns it.\<close>

theorem C6_ceilDiv_min_dividend:
  "math_ceilDiv INT64_MIN 2 = Inl SignedOverflow
   \<and> MPInt_ceilDiv (Small INT64_MIN) (Small 2) = Inl SignedOverflow
   \<and> Slow_ceilDiv (SlowMPInt_of INT64_MIN) (SlowMPInt_of 2) = Inr (- 4611686018427387904)"
  by (simp add: math_ceilDiv_def INT64_MIN_def c_ops_eval divWouldOverflow_def
      Slow_ceilDiv_def Slow_eq_def mpz_cmp_def mpz_cdiv_q_def)

section \<open>Copying\<close>

text \<open>The two constructors that call \<open>mpz_init\<close> give the new object a limb block of its
  own, holding the value it was built from.\<close>

lemma SlowMPInt_from_int64_ok:
  "SlowMPInt_from_int64 v h =
     Inr (Initialised (fresh h),
          h\<lparr>limbs := (limbs h)(fresh h \<mapsto> sint v), fresh := Suc (fresh h)\<rparr>)"
  by (simp add: SlowMPInt_from_int64_def mpz_init_def mpz_store_def bindE_def mpz_set_si_def)

lemma SlowMPInt_from_mpz_ok:
  assumes "limbs h a = Some k" "a < fresh h"
  shows "SlowMPInt_from_mpz (Initialised a) h =
     Inr (Initialised (fresh h),
          h\<lparr>limbs := (limbs h)(fresh h \<mapsto> k), fresh := Suc (fresh h)\<rparr>)"
  using assms
  by (simp add: SlowMPInt_from_mpz_def mpz_init_def mpz_set_def mpz_value_def mpz_store_def
      bindE_def)

text \<open>A copy made that way is independent: a later store into it leaves the original.\<close>

lemma SlowMPInt_from_mpz_independent:
  assumes "limbs h a = Some k" "a < fresh h"
    and "SlowMPInt_from_mpz (Initialised a) h = Inr (c, h1)"
    and "mpz_store c v h1 = Inr h2"
  shows "mpz_value h2 (Initialised a) = Inr k \<and> mpz_value h2 c = Inr v"
proof -
  from SlowMPInt_from_mpz_ok [OF assms(1,2)] assms(3)
  have c: "c = Initialised (fresh h)"
    and h1: "h1 = h\<lparr>limbs := (limbs h)(fresh h \<mapsto> k), fresh := Suc (fresh h)\<rparr>" by simp_all
  from assms(4) have "h2 = h1\<lparr>limbs := (limbs h1)(fresh h \<mapsto> v)\<rparr>"
    by (simp add: c mpz_store_def)
  then show ?thesis using assms(1,2) by (simp add: c h1 mpz_value_def)
qed

text \<open>C2 on a large operand: the copy constructor of \<open>SlowMPInt\<close> calls \<open>mpz_set\<close> on the
  member \<open>val\<close> of the new object without \<open>mpz_init\<close>, so copying an \<open>MPInt\<close> that holds the
  large representation hands GMP an uninitialised destination and yields no copy.\<close>

theorem C2_copy_of_large_uninitialised:
  "MPInt_copy (LargeObj v) h = Inl UninitialisedMpz
   \<and> MPInt_copy (SmallObj w) h = Inr (SmallObj w, h)"
  by (cases v) (simp_all add: MPInt_copy_def SlowMPInt_copy_def mpz_set_def mpz_value_def
      mpz_store_def bindE_def split: option.splits)

section \<open>Hashing across representations\<close>

text \<open>A 64-bit value and the same value held in the large representation hash alike
  exactly when the two callees agree on it.\<close>

lemma hash_value_cross_representation:
  "hash_value hash_int64 hash_slow (Small v) = hash_value hash_int64 hash_slow (Large (SlowMPInt_of v))
     \<longleftrightarrow> hash_int64 v = hash_slow (SlowMPInt_of v)"
  by (simp add: hash_value_def)

text \<open>If the large values are hashed by \<open>std::hash<SlowMPInt>\<close>, agreement across
  representations forces the hash of a negated positive word to differ from the hash of
  the word in exactly the lowest bit.\<close>

lemma hash_value_std_hash_sign:
  assumes "\<forall>w. hash_value hash_int64 (std_hash_SlowMPInt hash_view) (Small w)
      = hash_value hash_int64 (std_hash_SlowMPInt hash_view) (Large (SlowMPInt_of w))"
    and "0 < sint v"
  shows "hash_int64 (- v) = xor (hash_int64 v) 1"
proof -
  have e: "hash_int64 w = std_hash_SlowMPInt hash_view (sint w)" for w
    using assms(1) by (simp add: hash_value_def)
  have "fits64 (- sint v)" using assms(2) sint64_bounds [of v] unfolding fits64_def by linarith
  then have n: "sint (- v) = - sint v" by (rule c_neg_ok(2))
  show ?thesis using assms(2) by (simp add: e n std_hash_SlowMPInt_def)
qed

end
